theory Spec2Isabelle
  imports Main "HOL-Library.Sublist"
begin

section \<open>The application state\<close>

text \<open>
  The state of \<^verbatim>\<open>src/main.js\<close>: a triple of RGB values and the array of saved
  triples. The slider values are the strings of \<^verbatim>\<open>ev.target.value\<close>; the state is
  never mutated, every action returns a new state value.
\<close>

record rgb =
  r :: string
  g :: string
  b :: string

record state =
  rgb :: rgb
  saves :: "rgb list"

definition initialState :: state where
  "initialState = \<lparr>rgb = \<lparr>r = ''0'', g = ''0'', b = ''0''\<rparr>, saves = []\<rparr>"

section \<open>Ramda lenses\<close>

text \<open>
  A Ramda lens pairs a getter with a copying setter. \<^verbatim>\<open>R.lensProp(k)\<close> is
  \<^verbatim>\<open>lens(prop(k), assoc(k))\<close> and \<^verbatim>\<open>R.lensPath(p)\<close> is
  \<^verbatim>\<open>lens(path(p), assocPath(p))\<close>: the setter returns a copy of the object in which
  only the focused property differs.
\<close>

record ('s, 'a) lens =
  getter :: "'s \<Rightarrow> 'a"
  setter :: "'a \<Rightarrow> 's \<Rightarrow> 's"

definition R_view :: "('s, 'a) lens \<Rightarrow> 's \<Rightarrow> 'a" where
  "R_view l x = getter l x"

definition R_set :: "('s, 'a) lens \<Rightarrow> 'a \<Rightarrow> 's \<Rightarrow> 's" where
  "R_set l v x = setter l v x"

definition R_append :: "'a \<Rightarrow> 'a list \<Rightarrow> 'a list" where
  "R_append el xs = xs @ [el]"

definition lensRGB :: "(state, rgb) lens" where
  "lensRGB = \<lparr>getter = rgb, setter = (\<lambda>v s. s\<lparr>rgb := v\<rparr>)\<rparr>"

definition lensR :: "(state, string) lens" where
  "lensR = \<lparr>getter = (\<lambda>s. r (rgb s)), setter = (\<lambda>v s. s\<lparr>rgb := (rgb s)\<lparr>r := v\<rparr>\<rparr>)\<rparr>"

definition lensG :: "(state, string) lens" where
  "lensG = \<lparr>getter = (\<lambda>s. g (rgb s)), setter = (\<lambda>v s. s\<lparr>rgb := (rgb s)\<lparr>g := v\<rparr>\<rparr>)\<rparr>"

definition lensB :: "(state, string) lens" where
  "lensB = \<lparr>getter = (\<lambda>s. b (rgb s)), setter = (\<lambda>v s. s\<lparr>rgb := (rgb s)\<lparr>b := v\<rparr>\<rparr>)\<rparr>"

definition lensSaves :: "(state, rgb list) lens" where
  "lensSaves = \<lparr>getter = saves, setter = (\<lambda>v s. s\<lparr>saves := v\<rparr>)\<rparr>"

section \<open>Getters\<close>

definition getR :: "state \<Rightarrow> string" where
  "getR state = R_view lensR state"

definition getG :: "state \<Rightarrow> string" where
  "getG state = R_view lensG state"

definition getB :: "state \<Rightarrow> string" where
  "getB state = R_view lensB state"

text \<open>\<^verbatim>\<open>canSave\<close>: true unless the current colour is cyan, rgb(0, 255, 255).\<close>

definition canSave :: "state \<Rightarrow> bool" where
  "canSave state =
     (\<not> (getR state = ''0'' \<and> getG state = ''255'' \<and> getB state = ''255''))"

section \<open>Actions\<close>

text \<open>An action is a function from the current state to a new state.\<close>

type_synonym action = "state \<Rightarrow> state"

definition setR :: "string \<Rightarrow> action" where
  "setR v = (\<lambda>state. R_set lensR v state)"

definition setG :: "string \<Rightarrow> action" where
  "setG v = (\<lambda>state. R_set lensG v state)"

definition setB :: "string \<Rightarrow> action" where
  "setB v = (\<lambda>state. R_set lensB v state)"

text \<open>
  \<^verbatim>\<open>save()\<close> takes no argument and returns the action that appends the current
  triple to the saves and sets the saves of \<^verbatim>\<open>initialState\<close>.
\<close>

definition save :: "unit \<Rightarrow> action" where
  "save u = (\<lambda>state.
     let newRGB = R_view lensRGB state;
         saves0 = R_view lensSaves state
     in R_set lensSaves (R_append newRGB saves0) initialState)"

section \<open>The state loop of main\<close>

text \<open>
  \<^verbatim>\<open>actionProxy$.fold((state, action) => action(state), initialState)\<close>: the
  accumulator applies each incoming action to the accumulated state.
\<close>

definition accumulate :: "state \<Rightarrow> action \<Rightarrow> state" where
  "accumulate state action = action state"

definition state_fold :: "action list \<Rightarrow> state" where
  "state_fold actions = foldl accumulate initialState actions"

text \<open>The four action constructors, as the labels of the transitions.\<close>

datatype action_label = SetR string | SetG string | SetB string | Save

fun action_of :: "action_label \<Rightarrow> action" where
  "action_of (SetR v) = setR v"
| "action_of (SetG v) = setG v"
| "action_of (SetB v) = setB v"
| "action_of Save = save ()"

section \<open>The action button\<close>

text \<open>
  \<^verbatim>\<open>ActionButton\<close> receives its properties and the click events that the DOM source
  delivers for its selector. Its action stream maps every delivered click to
  \<^verbatim>\<open>props.set()\<close>; its view is \<^verbatim>\<open>div([button(props.selector, ...)])\<close>: a
  \<^verbatim>\<open>div\<close> holding one button whose tag is \<^verbatim>\<open>button\<close> followed by the selector,
  whose \<^verbatim>\<open>disabled\<close> property is \<^verbatim>\<open>!props.canAct\<close> and whose content is the
  caption.
\<close>

record 'a ActionButton_props =
  selector :: string
  caption :: string
  set_prop :: "unit \<Rightarrow> 'a"
  canAct :: bool

record button_vnode =
  sel :: string
  disabled :: bool
  content :: string

record div_vnode =
  div_sel :: string
  div_children :: "button_vnode list"

definition ActionButton_action :: "'a ActionButton_props \<Rightarrow> 'ev list \<Rightarrow> 'a list" where
  "ActionButton_action props clicks = map (\<lambda>ev. set_prop props ()) clicks"

definition ActionButton_DOM :: "'a ActionButton_props \<Rightarrow> div_vnode" where
  "ActionButton_DOM props =
     \<lparr>div_sel = ''div'',
      div_children =
        [\<lparr>sel = ''button'' @ selector props, disabled = (\<not> canAct props),
          content = caption props\<rparr>]\<rparr>"

text \<open>The properties \<^verbatim>\<open>main\<close> hands to the save button for the current state.\<close>

definition saveButton_props :: "state \<Rightarrow> action ActionButton_props" where
  "saveButton_props state =
     \<lparr>selector = ''.save'', caption = ''Save'', set_prop = save, canAct = canSave state\<rparr>"

text \<open>
  The DOM source (\<^verbatim>\<open>sources.DOM.select(selector).events('click')\<close>) belongs to the
  host page and not to the program: given what is rendered and an activation attempt of
  the user, it delivers the click events of the attempt. The loop of \<^verbatim>\<open>main\<close>
  for the save button takes it as a parameter: the button is rendered from the current
  state, an attempt goes through the DOM source to the button's action stream, and the
  fold applies the emitted actions before the next attempt is looked at.
\<close>

type_synonym 'ev dom_source = "div_vnode \<Rightarrow> 'ev \<Rightarrow> 'ev list"

fun saveButton_attempts :: "'ev dom_source \<Rightarrow> state \<Rightarrow> 'ev list \<Rightarrow> state" where
  "saveButton_attempts source state [] = state"
| "saveButton_attempts source state (attempt # attempts) =
     saveButton_attempts source
       (foldl accumulate state
          (ActionButton_action (saveButton_props state)
             (source (ActionButton_DOM (saveButton_props state)) attempt)))
       attempts"

text \<open>
  A DOM source honours the disabled property when it delivers no click event for a view whose buttons
  are all rendered with \<open>disabled = true\<close>.
\<close>

definition honours_disabled :: "'ev dom_source \<Rightarrow> bool" where
  "honours_disabled source =
     (\<forall>vtree attempt. list_all disabled (div_children vtree) \<longrightarrow> source vtree attempt = [])"

text \<open>
  The DOM source of a browser: an attempt on a button that is not disabled is delivered
  as one click event, an attempt on a disabled button is not delivered.
\<close>

definition DOM_click_events :: "'ev dom_source" where
  "DOM_click_events vtree attempt =
     concat (map (\<lambda>btn. if disabled btn then [] else [attempt]) (div_children vtree))"

section \<open>Channel values\<close>

text \<open>
  A string represents an integer in [0, 255] when it is a non-empty sequence of decimal
  digits whose value is at most 255. This is the property of the specification that the
  range inputs (min 0, max 255) are taken to ensure.
\<close>

definition is_digit :: "char \<Rightarrow> bool" where
  "is_digit c = (c \<in> set ''0123456789'')"

definition digit_value :: "char \<Rightarrow> nat" where
  "digit_value c = of_char c - 48"

definition decimal_value :: "string \<Rightarrow> nat" where
  "decimal_value v = foldl (\<lambda>n c. 10 * n + digit_value c) 0 v"

definition channel_value :: "string \<Rightarrow> bool" where
  "channel_value v = (v \<noteq> [] \<and> list_all is_digit v \<and> decimal_value v \<le> 255)"

definition rgb_in_range :: "rgb \<Rightarrow> bool" where
  "rgb_in_range c = (channel_value (r c) \<and> channel_value (g c) \<and> channel_value (b c))"

definition state_in_range :: "state \<Rightarrow> bool" where
  "state_in_range s = (rgb_in_range (rgb s) \<and> list_all rgb_in_range (saves s))"

fun label_in_range :: "action_label \<Rightarrow> bool" where
  "label_in_range (SetR v) = channel_value v"
| "label_in_range (SetG v) = channel_value v"
| "label_in_range (SetB v) = channel_value v"
| "label_in_range Save = True"

section \<open>The objects of the program in an explicit store\<close>

text \<open>
  In the JavaScript the states are objects that share structure: \<^verbatim>\<open>save\<close> puts
  the very \<^verbatim>\<open>rgb\<close> object of the old state into the new array and builds the new
  state from the one \<^verbatim>\<open>initialState\<close> object, whose \<^verbatim>\<open>rgb\<close> object every
  state after a save refers to. The store holds the three kinds of object of the program
  at addresses; a state is the address of a state cell.
\<close>

type_synonym addr = nat

datatype cell =
    RGB_cell string string string
  | Array_cell "addr list"
  | State_cell addr addr

type_synonym store = "cell list"

definition cell_at :: "store \<Rightarrow> addr \<Rightarrow> cell option" where
  "cell_at h a = (if a < length h then Some (h ! a) else None)"

text \<open>A new object gets the next free address; no cell that exists is written.\<close>

definition alloc :: "cell \<Rightarrow> store \<Rightarrow> store \<times> addr" where
  "alloc c h = (h @ [c], length h)"

text \<open>
  The object literal of \<^verbatim>\<open>initialState\<close>: the \<^verbatim>\<open>rgb\<close> object, the empty
  array and the state object that refers to both.
\<close>

definition initial_store :: store where
  "initial_store = [RGB_cell ''0'' ''0'' ''0'', Array_cell [], State_cell 0 1]"

definition initialState_ref :: addr where
  "initialState_ref = 2"

text \<open>
  \<^verbatim>\<open>R.prop\<close> reads a property, and the result is \<open>None\<close> when the cell has no
  such property. \<^verbatim>\<open>R.assoc\<close> makes a shallow clone of the object with one property
  replaced, the other properties copied by reference; \<^verbatim>\<open>R.append\<close> makes a new
  array with the element added at the end.
\<close>

definition prop_rgb :: "addr \<Rightarrow> store \<Rightarrow> addr option" where
  "prop_rgb obj h = (case cell_at h obj of Some (State_cell c ss) \<Rightarrow> Some c | _ \<Rightarrow> None)"

definition prop_saves :: "addr \<Rightarrow> store \<Rightarrow> addr option" where
  "prop_saves obj h = (case cell_at h obj of Some (State_cell c ss) \<Rightarrow> Some ss | _ \<Rightarrow> None)"

definition assoc_r :: "string \<Rightarrow> addr \<Rightarrow> store \<Rightarrow> (store \<times> addr) option" where
  "assoc_r v obj h =
     (case cell_at h obj of Some (RGB_cell x y z) \<Rightarrow> Some (alloc (RGB_cell v y z) h) | _ \<Rightarrow> None)"

definition assoc_g :: "string \<Rightarrow> addr \<Rightarrow> store \<Rightarrow> (store \<times> addr) option" where
  "assoc_g v obj h =
     (case cell_at h obj of Some (RGB_cell x y z) \<Rightarrow> Some (alloc (RGB_cell x v z) h) | _ \<Rightarrow> None)"

definition assoc_b :: "string \<Rightarrow> addr \<Rightarrow> store \<Rightarrow> (store \<times> addr) option" where
  "assoc_b v obj h =
     (case cell_at h obj of Some (RGB_cell x y z) \<Rightarrow> Some (alloc (RGB_cell x y v) h) | _ \<Rightarrow> None)"

definition assoc_rgb :: "addr \<Rightarrow> addr \<Rightarrow> store \<Rightarrow> (store \<times> addr) option" where
  "assoc_rgb v obj h =
     (case cell_at h obj of Some (State_cell c ss) \<Rightarrow> Some (alloc (State_cell v ss) h)
      | _ \<Rightarrow> None)"

definition assoc_saves :: "addr \<Rightarrow> addr \<Rightarrow> store \<Rightarrow> (store \<times> addr) option" where
  "assoc_saves v obj h =
     (case cell_at h obj of Some (State_cell c ss) \<Rightarrow> Some (alloc (State_cell c v) h)
      | _ \<Rightarrow> None)"

definition append_ref :: "addr \<Rightarrow> addr \<Rightarrow> store \<Rightarrow> (store \<times> addr) option" where
  "append_ref el list h =
     (case cell_at h list of Some (Array_cell xs) \<Rightarrow> Some (alloc (Array_cell (xs @ [el])) h)
      | _ \<Rightarrow> None)"

text \<open>
  An action on the store takes the address of the current state and returns the address
  of the new state. Setting through \<^verbatim>\<open>R.lensPath(['rgb', f])\<close> is
  \<^verbatim>\<open>assocPath\<close>: the inner object is cloned with the field replaced, then the state
  object is cloned with \<^verbatim>\<open>rgb\<close> referring to the clone.
\<close>

type_synonym ref_action = "addr \<Rightarrow> store \<Rightarrow> (store \<times> addr) option"

definition assocPath_rgb ::
  "(string \<Rightarrow> addr \<Rightarrow> store \<Rightarrow> (store \<times> addr) option) \<Rightarrow> string \<Rightarrow> ref_action" where
  "assocPath_rgb assoc_field v state h =
     (case prop_rgb state h of
        None \<Rightarrow> None
      | Some c \<Rightarrow>
          (case assoc_field v c h of
             None \<Rightarrow> None
           | Some (h1, c1) \<Rightarrow> assoc_rgb c1 state h1))"

definition setR_ref :: "string \<Rightarrow> ref_action" where
  "setR_ref v = assocPath_rgb assoc_r v"

definition setG_ref :: "string \<Rightarrow> ref_action" where
  "setG_ref v = assocPath_rgb assoc_g v"

definition setB_ref :: "string \<Rightarrow> ref_action" where
  "setB_ref v = assocPath_rgb assoc_b v"

text \<open>
  \<^verbatim>\<open>save\<close> reads the addresses of the current \<^verbatim>\<open>rgb\<close> object and of the
  current array, appends the former to a copy of the latter and clones the
  \<^verbatim>\<open>initialState\<close> object with the new array as its saves.
\<close>

definition save_ref :: "unit \<Rightarrow> ref_action" where
  "save_ref u state h =
     (case prop_rgb state h of
        None \<Rightarrow> None
      | Some newRGB \<Rightarrow>
          (case prop_saves state h of
             None \<Rightarrow> None
           | Some saves0 \<Rightarrow>
               (case append_ref newRGB saves0 h of
                  None \<Rightarrow> None
                | Some (h1, arr) \<Rightarrow> assoc_saves arr initialState_ref h1)))"

fun action_of_ref :: "action_label \<Rightarrow> ref_action" where
  "action_of_ref (SetR v) = setR_ref v"
| "action_of_ref (SetG v) = setG_ref v"
| "action_of_ref (SetB v) = setB_ref v"
| "action_of_ref Save = save_ref ()"

text \<open>The fold of \<^verbatim>\<open>main\<close> on the store, seeded with the address of \<^verbatim>\<open>initialState\<close>.\<close>

fun fold_ref :: "ref_action list \<Rightarrow> addr \<Rightarrow> store \<Rightarrow> (store \<times> addr) option" where
  "fold_ref [] state h = Some (h, state)"
| "fold_ref (action # actions) state h =
     (case action state h of
        None \<Rightarrow> None
      | Some (h1, state1) \<Rightarrow> fold_ref actions state1 h1)"

definition state_fold_ref :: "ref_action list \<Rightarrow> store \<Rightarrow> (store \<times> addr) option" where
  "state_fold_ref actions h = fold_ref actions initialState_ref h"

text \<open>The state value that an address of the store stands for.\<close>

definition read_rgb :: "store \<Rightarrow> addr \<Rightarrow> rgb option" where
  "read_rgb h a =
     (case cell_at h a of Some (RGB_cell x y z) \<Rightarrow> Some \<lparr>r = x, g = y, b = z\<rparr> | _ \<Rightarrow> None)"

fun read_rgbs :: "store \<Rightarrow> addr list \<Rightarrow> rgb list option" where
  "read_rgbs h [] = Some []"
| "read_rgbs h (a # as) =
     (case read_rgb h a of
        None \<Rightarrow> None
      | Some c \<Rightarrow> (case read_rgbs h as of None \<Rightarrow> None | Some cs \<Rightarrow> Some (c # cs)))"

definition read_state :: "store \<Rightarrow> addr \<Rightarrow> state option" where
  "read_state h a =
     (case cell_at h a of
        Some (State_cell c ss) \<Rightarrow>
          (case read_rgb h c of
             None \<Rightarrow> None
           | Some x \<Rightarrow>
               (case cell_at h ss of
                  Some (Array_cell xs) \<Rightarrow>
                    (case read_rgbs h xs of
                       None \<Rightarrow> None
                     | Some ys \<Rightarrow> Some \<lparr>rgb = x, saves = ys\<rparr>)
                | _ \<Rightarrow> None))
      | _ \<Rightarrow> None)"

text \<open>
  The object of \<^verbatim>\<open>initialState\<close> is intact in a store when its address still
  stands for the state of the literal.
\<close>

definition intact :: "store \<Rightarrow> bool" where
  "intact h = (read_state h initialState_ref = Some initialState)"

section \<open>Basic facts about the actions\<close>

lemma setR_eq: "setR v s = s\<lparr>rgb := (rgb s)\<lparr>r := v\<rparr>\<rparr>"
  by (simp add: setR_def R_set_def lensR_def)

lemma setG_eq: "setG v s = s\<lparr>rgb := (rgb s)\<lparr>g := v\<rparr>\<rparr>"
  by (simp add: setG_def R_set_def lensG_def)

lemma setB_eq: "setB v s = s\<lparr>rgb := (rgb s)\<lparr>b := v\<rparr>\<rparr>"
  by (simp add: setB_def R_set_def lensB_def)

lemma save_eq: "save u s = \<lparr>rgb = \<lparr>r = ''0'', g = ''0'', b = ''0''\<rparr>, saves = saves s @ [rgb s]\<rparr>"
  by (simp add: save_def R_set_def R_view_def R_append_def lensRGB_def lensSaves_def
      initialState_def)

lemma canSave_eq:
  "canSave s = (\<not> (r (rgb s) = ''0'' \<and> g (rgb s) = ''255'' \<and> b (rgb s) = ''255''))"
  by (simp add: canSave_def getR_def getG_def getB_def R_view_def lensR_def lensG_def lensB_def)

lemma rgb_eq_iff: "(c = \<lparr>r = x, g = y, b = z\<rparr>) = (r c = x \<and> g c = y \<and> b c = z)"
  by (cases c) simp

section \<open>Replaying actions on the store\<close>

text \<open>
  Cells that exist are never written: a store that extends another one reads the same
  at every address of the smaller store.
\<close>

lemma cell_at_prefix: "prefix h h' \<Longrightarrow> cell_at h a = Some c \<Longrightarrow> cell_at h' a = Some c"
  by (auto simp: cell_at_def prefix_def nth_append split: if_splits)

lemma cell_at_new: "cell_at (h @ [c]) (length h) = Some c"
  by (simp add: cell_at_def)

lemma read_rgb_prefix: "prefix h h' \<Longrightarrow> read_rgb h a = Some c \<Longrightarrow> read_rgb h' a = Some c"
  by (auto simp: read_rgb_def cell_at_prefix split: option.splits cell.splits)

lemma read_rgbs_prefix:
  "prefix h h' \<Longrightarrow> read_rgbs h as = Some cs \<Longrightarrow> read_rgbs h' as = Some cs"
proof (induction as arbitrary: cs)
  case Nil
  then show ?case by simp
next
  case (Cons a as)
  from Cons.prems(2) obtain c cs' where
    c: "read_rgb h a = Some c" and cs': "read_rgbs h as = Some cs'" and eq: "cs = c # cs'"
    by (auto split: option.splits)
  from read_rgb_prefix [OF Cons.prems(1) c] Cons.IH [OF Cons.prems(1) cs'] eq
  show ?case by simp
qed

lemma read_rgbs_snoc:
  "read_rgbs h as = Some cs \<Longrightarrow> read_rgb h a = Some c \<Longrightarrow>
   read_rgbs h (as @ [a]) = Some (cs @ [c])"
  by (induction as arbitrary: cs) (auto split: option.splits)

lemma read_state_prefix:
  "prefix h h' \<Longrightarrow> read_state h a = Some s \<Longrightarrow> read_state h' a = Some s"
  by (auto simp: read_state_def cell_at_prefix read_rgb_prefix read_rgbs_prefix
      split: option.splits cell.splits)

lemma read_stateD:
  assumes "read_state h a = Some s"
  obtains c ss xs where "cell_at h a = Some (State_cell c ss)"
    and "read_rgb h c = Some (rgb s)" and "cell_at h ss = Some (Array_cell xs)"
    and "read_rgbs h xs = Some (saves s)"
  using assms by (auto simp: read_state_def split: option.splits cell.splits)

lemma read_rgbD:
  assumes "read_rgb h c = Some x"
  obtains "cell_at h c = Some (RGB_cell (r x) (g x) (b x))"
  using assms by (auto simp: read_rgb_def split: option.splits cell.splits)


lemma assocPath_rgb_sim:
  assumes field: "\<And>h c x. read_rgb h c = Some x \<Longrightarrow>
      assoc_field v c h = Some (h @ [cl x], length h) \<and>
      read_rgb (h @ [cl x]) (length h) = Some (upd x)"
    and st: "read_state h a = Some s"
  shows "\<exists>h' a'. assocPath_rgb assoc_field v a h = Some (h', a') \<and> prefix h h' \<and>
      read_state h' a' = Some (s\<lparr>rgb := upd (rgb s)\<rparr>)"
proof -
  from st obtain c ss xs where
    a: "cell_at h a = Some (State_cell c ss)" and c: "read_rgb h c = Some (rgb s)" and
    ss: "cell_at h ss = Some (Array_cell xs)" and xs: "read_rgbs h xs = Some (saves s)"
    by (rule read_stateD)
  let ?h1 = "h @ [cl (rgb s)]"
  let ?h2 = "?h1 @ [State_cell (length h) ss]"
  from field [OF c] have f1: "assoc_field v c h = Some (?h1, length h)"
    and f2: "read_rgb ?h1 (length h) = Some (upd (rgb s))" by simp_all
  have p1: "prefix h ?h1" and p2: "prefix ?h1 ?h2" and p: "prefix h ?h2" by simp_all
  have a1: "cell_at ?h1 a = Some (State_cell c ss)" by (rule cell_at_prefix [OF p1 a])
  have run: "assocPath_rgb assoc_field v a h = Some (?h2, length ?h1)"
    using a f1 a1 by (simp add: assocPath_rgb_def prop_rgb_def assoc_rgb_def alloc_def)
  have n: "cell_at ?h2 (length ?h1) = Some (State_cell (length h) ss)" by (rule cell_at_new)
  have r2: "read_rgb ?h2 (length h) = Some (upd (rgb s))" by (rule read_rgb_prefix [OF p2 f2])
  have ss2: "cell_at ?h2 ss = Some (Array_cell xs)" by (rule cell_at_prefix [OF p ss])
  have xs2: "read_rgbs ?h2 xs = Some (saves s)" by (rule read_rgbs_prefix [OF p xs])
  have "read_state ?h2 (length ?h1) = Some \<lparr>rgb = upd (rgb s), saves = saves s\<rparr>"
    using n r2 ss2 xs2 by (simp add: read_state_def)
  moreover have "\<lparr>rgb = upd (rgb s), saves = saves s\<rparr> = s\<lparr>rgb := upd (rgb s)\<rparr>" by simp
  ultimately show ?thesis using run p by metis
qed

lemma setR_ref_sim:
  assumes "read_state h a = Some s"
  shows "\<exists>h' a'. setR_ref v a h = Some (h', a') \<and> prefix h h' \<and>
      read_state h' a' = Some (setR v s)"
  unfolding setR_ref_def setR_eq
proof (rule assocPath_rgb_sim [where cl = "\<lambda>x. RGB_cell v (g x) (b x)", OF _ assms])
  fix h c x
  assume "read_rgb h c = Some x"
  then show "assoc_r v c h = Some (h @ [RGB_cell v (g x) (b x)], length h) \<and>
      read_rgb (h @ [RGB_cell v (g x) (b x)]) (length h) = Some (x\<lparr>r := v\<rparr>)"
    by (auto simp: read_rgb_def assoc_r_def alloc_def cell_at_new split: option.splits cell.splits)
qed

lemma setG_ref_sim:
  assumes "read_state h a = Some s"
  shows "\<exists>h' a'. setG_ref v a h = Some (h', a') \<and> prefix h h' \<and>
      read_state h' a' = Some (setG v s)"
  unfolding setG_ref_def setG_eq
proof (rule assocPath_rgb_sim [where cl = "\<lambda>x. RGB_cell (r x) v (b x)", OF _ assms])
  fix h c x
  assume "read_rgb h c = Some x"
  then show "assoc_g v c h = Some (h @ [RGB_cell (r x) v (b x)], length h) \<and>
      read_rgb (h @ [RGB_cell (r x) v (b x)]) (length h) = Some (x\<lparr>g := v\<rparr>)"
    by (auto simp: read_rgb_def assoc_g_def alloc_def cell_at_new split: option.splits cell.splits)
qed

lemma setB_ref_sim:
  assumes "read_state h a = Some s"
  shows "\<exists>h' a'. setB_ref v a h = Some (h', a') \<and> prefix h h' \<and>
      read_state h' a' = Some (setB v s)"
  unfolding setB_ref_def setB_eq
proof (rule assocPath_rgb_sim [where cl = "\<lambda>x. RGB_cell (r x) (g x) v", OF _ assms])
  fix h c x
  assume "read_rgb h c = Some x"
  then show "assoc_b v c h = Some (h @ [RGB_cell (r x) (g x) v], length h) \<and>
      read_rgb (h @ [RGB_cell (r x) (g x) v]) (length h) = Some (x\<lparr>b := v\<rparr>)"
    by (auto simp: read_rgb_def assoc_b_def alloc_def cell_at_new split: option.splits cell.splits)
qed

text \<open>
  Each action on the store allocates and never writes: it returns a store that extends
  the given one and a state address standing for the result of the action on state
  values. \<^verbatim>\<open>save\<close> needs the object of \<^verbatim>\<open>initialState\<close> to be intact.
\<close>

lemma intact_initial_store: "intact initial_store"
  by (simp add: intact_def read_state_def read_rgb_def cell_at_def initial_store_def
      initialState_ref_def initialState_def)

lemma intact_prefix: "prefix h h' \<Longrightarrow> intact h \<Longrightarrow> intact h'"
  by (simp add: intact_def read_state_prefix)

lemma save_ref_sim:
  assumes st: "read_state h a = Some s" and i: "intact h"
  shows "\<exists>h' a'. save_ref u a h = Some (h', a') \<and> prefix h h' \<and>
      read_state h' a' = Some (save u s)"
proof -
  from st obtain c ss xs where
    a: "cell_at h a = Some (State_cell c ss)" and c: "read_rgb h c = Some (rgb s)" and
    ss: "cell_at h ss = Some (Array_cell xs)" and xs: "read_rgbs h xs = Some (saves s)"
    by (rule read_stateD)
  from i obtain c0 ss0 xs0 where
    a0: "cell_at h initialState_ref = Some (State_cell c0 ss0)" and
    c0: "read_rgb h c0 = Some (rgb initialState)"
    unfolding intact_def by (rule read_stateD)
  let ?h1 = "h @ [Array_cell (xs @ [c])]"
  let ?h2 = "?h1 @ [State_cell c0 (length h)]"
  have p1: "prefix h ?h1" and p2: "prefix ?h1 ?h2" and p: "prefix h ?h2" by simp_all
  have a01: "cell_at ?h1 initialState_ref = Some (State_cell c0 ss0)"
    by (rule cell_at_prefix [OF p1 a0])
  have run: "save_ref u a h = Some (?h2, length ?h1)"
    using a ss a01
    by (simp add: save_ref_def prop_rgb_def prop_saves_def append_ref_def assoc_saves_def
        alloc_def)
  have n: "cell_at ?h2 (length ?h1) = Some (State_cell c0 (length h))" by (rule cell_at_new)
  have r2: "read_rgb ?h2 c0 = Some (rgb initialState)" by (rule read_rgb_prefix [OF p c0])
  have arr: "cell_at ?h2 (length h) = Some (Array_cell (xs @ [c]))"
    by (rule cell_at_prefix [OF p2 cell_at_new])
  have "read_rgbs ?h2 (xs @ [c]) = Some (saves s @ [rgb s])"
    by (rule read_rgbs_snoc [OF read_rgbs_prefix [OF p xs] read_rgb_prefix [OF p c]])
  with n r2 arr have "read_state ?h2 (length ?h1) =
      Some \<lparr>rgb = rgb initialState, saves = saves s @ [rgb s]\<rparr>"
    by (simp add: read_state_def)
  moreover have "\<lparr>rgb = rgb initialState, saves = saves s @ [rgb s]\<rparr> = save u s"
    by (simp add: save_eq initialState_def)
  ultimately show ?thesis using run p by metis
qed

lemma action_of_ref_sim:
  assumes "read_state h a = Some s" and "intact h"
  shows "\<exists>h' a'. action_of_ref l a h = Some (h', a') \<and> prefix h h' \<and>
      read_state h' a' = Some (action_of l s)"
  using assms by (cases l) (simp_all add: setR_ref_sim setG_ref_sim setB_ref_sim save_ref_sim)

lemma fold_ref_sim:
  assumes "read_state h a = Some s" and "intact h"
  shows "\<exists>h' a'. fold_ref (map action_of_ref acts) a h = Some (h', a') \<and> prefix h h' \<and>
      read_state h' a' = Some (foldl accumulate s (map action_of acts))"
  using assms
proof (induction acts arbitrary: h a s)
  case Nil
  then show ?case by simp
next
  case (Cons l acts)
  from action_of_ref_sim [OF Cons.prems, of l] obtain h1 a1 where
    run1: "action_of_ref l a h = Some (h1, a1)" and p1: "prefix h h1" and
    s1: "read_state h1 a1 = Some (action_of l s)" by blast
  from Cons.IH [OF s1 intact_prefix [OF p1 Cons.prems(2)]] obtain h2 a2 where
    run2: "fold_ref (map action_of_ref acts) a1 h1 = Some (h2, a2)" and p2: "prefix h1 h2" and
    s2: "read_state h2 a2 = Some (foldl accumulate (action_of l s) (map action_of acts))"
    by blast
  have "fold_ref (map action_of_ref (l # acts)) a h = Some (h2, a2)"
    using run1 run2 by simp
  moreover have "prefix h h2" using p1 p2 by (rule prefix_order.trans)
  moreover have "foldl accumulate s (map action_of (l # acts)) =
      foldl accumulate (action_of l s) (map action_of acts)"
    by (simp add: accumulate_def)
  ultimately show ?case using s2 by metis
qed

lemma state_fold_ref_sim:
  assumes "intact h"
  shows "\<exists>h' a'. state_fold_ref (map action_of_ref acts) h = Some (h', a') \<and> prefix h h' \<and>
      read_state h' a' = Some (state_fold (map action_of acts))"
  unfolding state_fold_ref_def state_fold_def
  using fold_ref_sim [OF _ assms, of initialState_ref initialState acts] assms
  by (simp add: intact_def)

text \<open>
  The store after \<open>setR ''5''\<close>, \<open>save ()\<close>, \<open>setG ''7''\<close>: the state after the
  save (cell 6) refers to the \<^verbatim>\<open>rgb\<close> object of \<^verbatim>\<open>initialState\<close>
  (cell 0), the array (cell 5) refers to the \<^verbatim>\<open>rgb\<close> object of the state saved
  (cell 3), and \<open>setG\<close> clones cell 0 into cell 7 and leaves it as it was.
\<close>

lemma store_after_set_save_set:
  "state_fold_ref (map action_of_ref [SetR ''5'', Save, SetG ''7'']) initial_store =
   Some ([RGB_cell ''0'' ''0'' ''0'', Array_cell [], State_cell 0 1,
          RGB_cell ''5'' ''0'' ''0'', State_cell 3 1,
          Array_cell [3], State_cell 0 5,
          RGB_cell ''0'' ''7'' ''0'', State_cell 7 5], 8)"
  by (simp add: state_fold_ref_def initial_store_def initialState_ref_def setR_ref_def
      setG_ref_def save_ref_def assocPath_rgb_def prop_rgb_def prop_saves_def assoc_r_def
      assoc_g_def assoc_rgb_def assoc_saves_def append_ref_def alloc_def cell_at_def)

text \<open>
  Claim C1 (replay determinism). For every sequence \<open>acts\<close> of actions drawn from
  \<open>setR v\<close>, \<open>setG v\<close>, \<open>setB v\<close> and \<open>save ()\<close>, folding the sequence from the
  object of \<open>initialState\<close> returns a state that stands for the left fold of the
  sequence over the initial state value, and doing so a second time, in the store the
  first run left behind, returns a state that stands for the same value. This holds in
  the store left by any earlier sequence of actions; afterwards the state of the first
  run and the object of \<open>initialState\<close> still read as before, although the states
  share the \<^verbatim>\<open>rgb\<close> objects and \<^verbatim>\<open>save\<close> builds on the one
  \<^verbatim>\<open>initialState\<close> object.
\<close>

theorem replay_reproduces_state:
  "\<exists>h0 a0 h1 a1 h2 a2.
     state_fold_ref (map action_of_ref earlier) initial_store = Some (h0, a0) \<and>
     state_fold_ref (map action_of_ref acts) h0 = Some (h1, a1) \<and>
     state_fold_ref (map action_of_ref acts) h1 = Some (h2, a2) \<and>
     read_state h1 a1 = Some (state_fold (map action_of acts)) \<and>
     read_state h2 a2 = Some (state_fold (map action_of acts)) \<and>
     read_state h2 a1 = Some (state_fold (map action_of acts)) \<and>
     read_state h2 initialState_ref = Some initialState"
proof -
  from state_fold_ref_sim [OF intact_initial_store, of earlier] obtain h0 a0 where
    r0: "state_fold_ref (map action_of_ref earlier) initial_store = Some (h0, a0)" and
    p0: "prefix initial_store h0" by blast
  have i0: "intact h0" by (rule intact_prefix [OF p0 intact_initial_store])
  from state_fold_ref_sim [OF i0, of acts] obtain h1 a1 where
    r1: "state_fold_ref (map action_of_ref acts) h0 = Some (h1, a1)" and
    p1: "prefix h0 h1" and
    s1: "read_state h1 a1 = Some (state_fold (map action_of acts))" by blast
  have i1: "intact h1" by (rule intact_prefix [OF p1 i0])
  from state_fold_ref_sim [OF i1, of acts] obtain h2 a2 where
    r2: "state_fold_ref (map action_of_ref acts) h1 = Some (h2, a2)" and
    p2: "prefix h1 h2" and
    s2: "read_state h2 a2 = Some (state_fold (map action_of acts))" by blast
  have s12: "read_state h2 a1 = Some (state_fold (map action_of acts))"
    by (rule read_state_prefix [OF p2 s1])
  have "intact h2" by (rule intact_prefix [OF p2 i1])
  then have i2: "read_state h2 initialState_ref = Some initialState"
    by (simp add: intact_def)
  from r0 r1 r2 s1 s2 s12 i2 show ?thesis by blast
qed

section \<open>The save action\<close>

text \<open>
  Claim C2. For every state \<open>s\<close>, the saves of \<open>save () s\<close> are the saves of \<open>s\<close>
  with \<open>rgb s\<close> appended at the end, and its rgb is \<open>{r: "0", g: "0", b: "0"}\<close>;
  equivalently, \<open>save () s\<close> is \<open>initialState\<close> with only the saves replaced.
\<close>

theorem save_appends_and_resets:
  "saves (save () s) = saves s @ [rgb s] \<and>
   rgb (save () s) = \<lparr>r = ''0'', g = ''0'', b = ''0''\<rparr> \<and>
   save () s = initialState\<lparr>saves := saves s @ [rgb s]\<rparr>"
  by (simp add: save_eq initialState_def)

section \<open>The field setters\<close>

text \<open>
  Claim C3 (frame). For every state \<open>s\<close> and value \<open>v\<close>, each of \<open>setR v\<close>,
  \<open>setG v\<close> and \<open>setB v\<close> sets its own field to \<open>v\<close> and leaves the saves and the
  other two rgb fields as they were.
\<close>

theorem setters_frame:
  "(r (rgb (setR v s)) = v \<and> g (rgb (setR v s)) = g (rgb s) \<and>
    b (rgb (setR v s)) = b (rgb s) \<and> saves (setR v s) = saves s) \<and>
   (g (rgb (setG v s)) = v \<and> r (rgb (setG v s)) = r (rgb s) \<and>
    b (rgb (setG v s)) = b (rgb s) \<and> saves (setG v s) = saves s) \<and>
   (b (rgb (setB v s)) = v \<and> r (rgb (setB v s)) = r (rgb s) \<and>
    g (rgb (setB v s)) = g (rgb s) \<and> saves (setB v s) = saves s)"
  by (simp add: setR_eq setG_eq setB_eq)

text \<open>
  Claim C7 (idempotence). For every state \<open>s\<close>, applying \<open>setR ''128''\<close> twice in a
  row gives the same state as applying it once.
\<close>

theorem setR_idempotent: "setR ''128'' (setR ''128'' s) = setR ''128'' s"
  by (simp add: setR_eq)

text \<open>
  Claim C9 (values are stored verbatim). The setters neither clamp nor coerce nor
  validate: for every state \<open>s\<close> and every string \<open>v\<close> the targeted field of the new
  state is \<open>v\<close> itself, also for strings such as \<open>''999''\<close> and \<open>''abc''\<close>, which
  \<open>getR\<close> reads back unchanged.
\<close>

theorem setters_store_verbatim:
  "r (rgb (setR v s)) = v \<and> g (rgb (setG v s)) = v \<and> b (rgb (setB v s)) = v \<and>
   getR (setR ''999'' s) = ''999'' \<and> getR (setR ''abc'' s) = ''abc''"
  by (simp add: setR_eq setG_eq setB_eq getR_def R_view_def lensR_def)

text \<open>
  Claim C10 (commutation). Setters of distinct rgb fields commute: for every state
  \<open>s\<close> and all values \<open>v\<close> and \<open>w\<close>, the two orders of application give the same
  state, for each of the three pairs of distinct fields.
\<close>

theorem setters_commute:
  "setG w (setR v s) = setR v (setG w s) \<and>
   setB w (setR v s) = setR v (setB w s) \<and>
   setB w (setG v s) = setG v (setB w s)"
  by (simp add: setR_eq setG_eq setB_eq)

section \<open>Save eligibility\<close>

text \<open>
  Claim C4. For every state \<open>s\<close>, \<open>canSave s\<close> is false if and only if \<open>rgb s\<close>
  is exactly \<open>{r: "0", g: "255", b: "255"}\<close>; in particular it is true at the boundary
  values \<open>{255, 0, 0}\<close> and \<open>{0, 255, 254}\<close>.
\<close>

theorem canSave_false_iff_cyan:
  "(\<not> canSave s) = (rgb s = \<lparr>r = ''0'', g = ''255'', b = ''255''\<rparr>) \<and>
   canSave (s\<lparr>rgb := \<lparr>r = ''255'', g = ''0'', b = ''0''\<rparr>\<rparr>) \<and>
   canSave (s\<lparr>rgb := \<lparr>r = ''0'', g = ''255'', b = ''254''\<rparr>\<rparr>)"
  by (auto simp add: canSave_eq rgb_eq_iff)

section \<open>End-to-end scenario\<close>

text \<open>
  Claim C8. The initial state is \<open>{rgb: {0, 0, 0}, saves: []}\<close>, and folding
  \<open>setR ''200''\<close>, then \<open>setG ''100''\<close>, then \<open>save ()\<close> over it gives exactly
  \<open>{rgb: {0, 0, 0}, saves: [{r: "200", g: "100", b: "0"}]}\<close>.
\<close>

theorem scenario_set_set_save:
  "initialState = \<lparr>rgb = \<lparr>r = ''0'', g = ''0'', b = ''0''\<rparr>, saves = []\<rparr> \<and>
   state_fold [setR ''200'', setG ''100'', save ()] =
     \<lparr>rgb = \<lparr>r = ''0'', g = ''0'', b = ''0''\<rparr>,
      saves = [\<lparr>r = ''200'', g = ''100'', b = ''0''\<rparr>]\<rparr>"
  by (simp add: state_fold_def accumulate_def save_eq setG_eq setR_eq initialState_def)

section \<open>The save button in the cyan state\<close>

lemma disabled_attempt_ignored:
  "honours_disabled source \<Longrightarrow> \<not> canSave s \<Longrightarrow>
   ActionButton_action (saveButton_props s)
     (source (ActionButton_DOM (saveButton_props s)) attempt) = []"
  by (simp add: honours_disabled_def ActionButton_action_def ActionButton_DOM_def
      saveButton_props_def)

lemma attempts_ignored:
  "honours_disabled source \<Longrightarrow> \<not> canSave s \<Longrightarrow> saveButton_attempts source s attempts = s"
  by (induction attempts) (simp_all add: disabled_attempt_ignored)

lemma honours_disabled_DOM_click_events: "honours_disabled DOM_click_events"
  by (auto simp add: honours_disabled_def DOM_click_events_def list_all_iff)

text \<open>
  The disabling is what keeps the click away: where \<open>canSave\<close> holds, an attempt in the browser's DOM source
  is delivered and the state becomes \<open>save () s\<close>.
\<close>

lemma enabled_attempt_saves:
  "canSave s \<Longrightarrow> saveButton_attempts DOM_click_events s [attempt] = save () s"
  by (simp add: ActionButton_action_def DOM_click_events_def ActionButton_DOM_def
      saveButton_props_def accumulate_def)

text \<open>
  Claim C5. With a DOM source that honours the disabled property, from any state whose rgb is
  \<open>{r: "0", g: "255", b: "255"}\<close>: \<open>canSave\<close> is false, the save button is rendered
  with \<open>disabled = true\<close>, an attempt to save emits no action, and after any number
  of attempts the state, and with it the saves, is unchanged.
\<close>

theorem cyan_attempts_no_effect:
  "honours_disabled source \<Longrightarrow> rgb s = \<lparr>r = ''0'', g = ''255'', b = ''255''\<rparr> \<Longrightarrow>
   \<not> canSave s \<and>
   map disabled (div_children (ActionButton_DOM (saveButton_props s))) = [True] \<and>
   ActionButton_action (saveButton_props s)
     (source (ActionButton_DOM (saveButton_props s)) attempt) = [] \<and>
   saveButton_attempts source s attempts = s \<and>
   saves (saveButton_attempts source s attempts) = saves s"
proof -
  assume hon: "honours_disabled source"
  assume "rgb s = \<lparr>r = ''0'', g = ''255'', b = ''255''\<rparr>"
  then have n: "\<not> canSave s" by (simp add: canSave_eq)
  have d: "map disabled (div_children (ActionButton_DOM (saveButton_props s))) = [True]"
    using n by (simp add: ActionButton_DOM_def saveButton_props_def)
  from n d disabled_attempt_ignored [OF hon n, of attempt]
    attempts_ignored [OF hon n, of attempts]
  show ?thesis by simp
qed

text \<open>
  The theorem at the browser's DOM source, the cyan state with one save and two attempts
  in a row.
\<close>

theorem cyan_attempts_no_effect_witness:
  "honours_disabled (DOM_click_events :: unit dom_source) \<and>
   rgb \<lparr>rgb = \<lparr>r = ''0'', g = ''255'', b = ''255''\<rparr>,
        saves = [\<lparr>r = ''1'', g = ''2'', b = ''3''\<rparr>]\<rparr>
     = \<lparr>r = ''0'', g = ''255'', b = ''255''\<rparr> \<and>
   saveButton_attempts DOM_click_events
     \<lparr>rgb = \<lparr>r = ''0'', g = ''255'', b = ''255''\<rparr>,
      saves = [\<lparr>r = ''1'', g = ''2'', b = ''3''\<rparr>]\<rparr>
     [(), ()]
     = \<lparr>rgb = \<lparr>r = ''0'', g = ''255'', b = ''255''\<rparr>,
        saves = [\<lparr>r = ''1'', g = ''2'', b = ''3''\<rparr>]\<rparr>"
proof -
  let ?s = "\<lparr>rgb = \<lparr>r = ''0'', g = ''255'', b = ''255''\<rparr>,
             saves = [\<lparr>r = ''1'', g = ''2'', b = ''3''\<rparr>]\<rparr>"
  have hon: "honours_disabled (DOM_click_events :: unit dom_source)"
    by (rule honours_disabled_DOM_click_events)
  have h: "rgb ?s = \<lparr>r = ''0'', g = ''255'', b = ''255''\<rparr>" by simp
  from cyan_attempts_no_effect [OF hon h, of "()" "[(), ()]"]
  have "saveButton_attempts DOM_click_events ?s [(), ()] = ?s" by blast
  with hon h show ?thesis by (intro conjI)
qed

section \<open>Invariants of the reachable states\<close>

lemma channel_value_0: "channel_value ''0''"
  by (simp add: channel_value_def is_digit_def decimal_value_def digit_value_def)

lemma initialState_in_range: "state_in_range initialState"
  by (simp add: state_in_range_def rgb_in_range_def initialState_def channel_value_0)

lemma action_in_range:
  "state_in_range s \<Longrightarrow> label_in_range a \<Longrightarrow> state_in_range (action_of a s)"
  by (cases a)
    (simp_all add: state_in_range_def rgb_in_range_def setR_eq setG_eq setB_eq save_eq
      channel_value_0)

lemma foldl_in_range:
  "state_in_range s \<Longrightarrow> list_all label_in_range acts \<Longrightarrow>
   state_in_range (foldl accumulate s (map action_of acts))"
  unfolding accumulate_def
proof (induction acts arbitrary: s)
  case Nil
  then show ?case by simp
next
  case (Cons a acts)
  from Cons.prems have "state_in_range (action_of a s)"
    by (simp add: action_in_range)
  with Cons show ?case by simp
qed

lemma action_saves_prefix: "prefix (saves s) (saves (action_of a s))"
  by (cases a) (simp_all add: setR_eq setG_eq setB_eq save_eq)

lemma foldl_saves_prefix: "prefix (saves s) (saves (foldl accumulate s (map action_of acts)))"
  unfolding accumulate_def
proof (induction acts arbitrary: s)
  case Nil
  show ?case by simp
next
  case (Cons a acts)
  from action_saves_prefix [of s a] Cons.IH [of "action_of a s"] show ?case
    by (auto intro: prefix_order.trans)
qed

text \<open>
  Claim C6, as the code has it. The fields \<open>r\<close>, \<open>g\<close> and \<open>b\<close> are fields of the
  record, so they are always present. When every value given to \<open>setR\<close>, \<open>setG\<close> and
  \<open>setB\<close> is a decimal string of an integer in [0, 255], every state reachable from
  \<open>initialState\<close> has such strings in \<open>rgb\<close> and in every saved triple. For any
  actions at all, the saves of a reachable state are a prefix of the saves of every
  state reached from it later: no action changes or removes an entry once saved.
\<close>

theorem reachable_states_in_range:
  "(list_all label_in_range acts \<longrightarrow> state_in_range (state_fold (map action_of acts))) \<and>
   prefix (saves (state_fold (map action_of acts)))
     (saves (state_fold (map action_of (acts @ later))))"
proof
  show "list_all label_in_range acts \<longrightarrow> state_in_range (state_fold (map action_of acts))"
    by (simp add: state_fold_def foldl_in_range initialState_in_range)
next
  show "prefix (saves (state_fold (map action_of acts)))
     (saves (state_fold (map action_of (acts @ later))))"
    by (simp add: state_fold_def foldl_saves_prefix)
qed

text \<open>
  The theorem at a run of four in-range actions, continued by \<open>setR ''abc''\<close> and a
  save.
\<close>

theorem reachable_states_in_range_witness:
  "list_all label_in_range [SetR ''200'', SetG ''100'', Save, SetB ''255''] \<and>
   state_in_range (state_fold (map action_of [SetR ''200'', SetG ''100'', Save, SetB ''255''])) \<and>
   prefix (saves (state_fold (map action_of [SetR ''200'', SetG ''100'', Save, SetB ''255''])))
     (saves (state_fold (map action_of
        ([SetR ''200'', SetG ''100'', Save, SetB ''255''] @ [SetR ''abc'', Save]))))"
proof -
  have h: "list_all label_in_range [SetR ''200'', SetG ''100'', Save, SetB ''255'']"
    by (simp add: channel_value_def is_digit_def decimal_value_def digit_value_def)
  from reachable_states_in_range
    [of "[SetR ''200'', SetG ''100'', Save, SetB ''255'']" "[SetR ''abc'', Save]"] h
  show ?thesis by blast
qed

text \<open>
  The invariant does not hold for arbitrary setter values: the state reached from
  \<open>initialState\<close> by \<open>setR ''999''\<close> has \<open>r = ''999''\<close>, which is no integer in
  [0, 255].
\<close>

theorem out_of_range_counterexample:
  "\<not> channel_value (r (rgb (state_fold [setR ''999''])))"
  by (simp add: state_fold_def accumulate_def setR_eq channel_value_def is_digit_def
      decimal_value_def digit_value_def)

end
